theory Spec2Isabelle
  imports Complex_Main
begin

section \<open>The form and query binder of echo (bind.go)\<close>

text \<open>
  The binder walks a struct through Go's reflection and fills its fields from a
  \<open>map[string][]string\<close>. The embedding keeps a reflected value as its type (a
  \<open>gtype\<close>) next to its contents (a \<open>val\<close>). A Go function that mutates the field
  and returns an \<open>error\<close> becomes a function returning the field afterwards together with
  \<open>error option\<close>, \<open>None\<close> being \<open>nil\<close>.
\<close>

subsection \<open>Errors\<close>

text \<open>\<open>strconv.ErrSyntax\<close>, \<open>strconv.ErrRange\<close> and the bit size error of strconv.\<close>

datatype numerr = ErrSyntax | ErrRange | ErrBitSize nat

text \<open>
  The errors the binder returns: a \<open>*strconv.NumError\<close> (function, input, cause), the
  three \<open>errors.New\<close> of bind.go, what the time package and a type's own
  \<open>UnmarshalParam\<close> return, and the two run-time panics that the walk can meet.
\<close>

datatype error =
    NumError string string numerr
  | ErrNotStruct
  | ErrUnknownType
  | ErrBlankTimeFormat
  | ErrTime string
  | ErrUnmarshalParam string
  | PanicIndexOutOfRange
  | PanicReflect

subsection \<open>strconv, base 10\<close>

definition isDigit :: "char \<Rightarrow> bool" where
  "isDigit c = (48 \<le> (of_char c :: nat) \<and> (of_char c :: nat) \<le> 57)"

definition digitVal :: "char \<Rightarrow> nat" where
  "digitVal c = of_char c - 48"

text \<open>\<open>maxUint64/10 + 1\<close>: the least \<open>n\<close> with \<open>n * 10\<close> beyond 64 bits.\<close>

definition cutoff64 :: nat where
  "cutoff64 = (2 ^ 64 - 1) div 10 + 1"

text \<open>
  The digit loop of \<open>strconv.ParseUint\<close> for base 10, on 64-bit unsigned arithmetic
  with the wrap-around written out. A byte that is no decimal digit is a syntax error (a
  letter has a digit value of at least 10, the base).
\<close>

fun parseLoop :: "nat \<Rightarrow> nat \<Rightarrow> string \<Rightarrow> nat \<times> numerr option" where
  "parseLoop maxVal n [] = (n, None)"
| "parseLoop maxVal n (c # cs) =
     (if \<not> isDigit c then (0, Some ErrSyntax)
      else if n \<ge> cutoff64 then (maxVal, Some ErrRange)
      else
        let n' = n * 10;
            n1 = (n' + digitVal c) mod 2 ^ 64
        in if n1 < n' \<or> n1 > maxVal then (maxVal, Some ErrRange)
           else parseLoop maxVal n1 cs)"

text \<open>\<open>strconv.ParseUint(s, 10, bitSize)\<close>; \<open>intSize\<close> is \<open>strconv.IntSize\<close>.\<close>

definition ParseUint :: "nat \<Rightarrow> string \<Rightarrow> nat \<Rightarrow> nat \<times> numerr option" where
  "ParseUint intSize s bitSize =
     (if s = [] then (0, Some ErrSyntax)
      else
        let bs = (if bitSize = 0 then intSize else bitSize)
        in if bs > 64 then (0, Some (ErrBitSize bs))
           else parseLoop (2 ^ bs - 1) 0 s)"

text \<open>\<open>strconv.ParseInt(s, 10, bitSize)\<close>.\<close>

definition ParseInt :: "nat \<Rightarrow> string \<Rightarrow> nat \<Rightarrow> int \<times> numerr option" where
  "ParseInt intSize s bitSize =
     (if s = [] then (0, Some ErrSyntax)
      else
        let neg = (hd s = CHR ''-'');
            s1 = (if hd s = CHR ''+'' \<or> hd s = CHR ''-'' then tl s else s);
            (un, err) = ParseUint intSize s1 bitSize
        in if err \<noteq> None \<and> err \<noteq> Some ErrRange then (0, err)
           else
             let bs = (if bitSize = 0 then intSize else bitSize);
                 cutoff = (2 :: nat) ^ (bs - 1)
             in if \<not> neg \<and> un \<ge> cutoff then (int cutoff - 1, Some ErrRange)
                else if neg \<and> un > cutoff then (- int cutoff, Some ErrRange)
                else (if neg then - int un else int un, None))"

text \<open>\<open>strconv.ParseBool\<close>.\<close>

definition ParseBool :: "string \<Rightarrow> bool \<times> numerr option" where
  "ParseBool str =
     (if str = ''1'' \<or> str = ''t'' \<or> str = ''T'' \<or> str = ''true'' \<or> str = ''TRUE''
         \<or> str = ''True'' then (True, None)
      else if str = ''0'' \<or> str = ''f'' \<or> str = ''F'' \<or> str = ''false'' \<or> str = ''FALSE''
         \<or> str = ''False'' then (False, None)
      else (False, Some ErrSyntax))"

subsection \<open>Reflected types and values\<close>

text \<open>\<open>reflect.Kind\<close>; \<open>KOther\<close> stands for the kinds bind.go never names.\<close>

datatype kind =
    KBool | KInt | KInt8 | KInt16 | KInt32 | KInt64
  | KUint | KUint8 | KUint16 | KUint32 | KUint64
  | KFloat32 | KFloat64 | KString | KPtr | KSlice | KStruct | KOther

text \<open>
  \<open>reflect.Type\<close> and \<open>reflect.StructField\<close>. \<open>TNamed\<close> is a defined type over its
  underlying type, \<open>TTime\<close> is \<open>time.Time\<close>. A struct tag is kept parsed, as the list
  of its key and value pairs. \<open>PkgPath\<close> is empty exactly for an exported field.
\<close>

datatype gtype =
    TBool | TInt | TInt8 | TInt16 | TInt32 | TInt64
  | TUint | TUint8 | TUint16 | TUint32 | TUint64
  | TFloat32 | TFloat64 | TString
  | TPtr gtype
  | TSlice gtype
  | TStruct "sfield list"
  | TTime
  | TNamed string gtype
  | TOther
and sfield =
    StructField (Name: string) (PkgPath: string) (Tag: "(string \<times> string) list") (Type: gtype)

text \<open>The contents of a value; a time is the count of nanoseconds after the zero time.\<close>

datatype val =
    VBool bool
  | VInt int
  | VUint nat
  | VFloat real
  | VString string
  | VPtr "val option"
  | VSlice "val list"
  | VStruct "val list"
  | VTime int
  | VOther

fun Kind :: "gtype \<Rightarrow> kind" where
  "Kind TBool = KBool"
| "Kind TInt = KInt"
| "Kind TInt8 = KInt8"
| "Kind TInt16 = KInt16"
| "Kind TInt32 = KInt32"
| "Kind TInt64 = KInt64"
| "Kind TUint = KUint"
| "Kind TUint8 = KUint8"
| "Kind TUint16 = KUint16"
| "Kind TUint32 = KUint32"
| "Kind TUint64 = KUint64"
| "Kind TFloat32 = KFloat32"
| "Kind TFloat64 = KFloat64"
| "Kind TString = KString"
| "Kind (TPtr t) = KPtr"
| "Kind (TSlice t) = KSlice"
| "Kind (TStruct fs) = KStruct"
| "Kind TTime = KStruct"
| "Kind (TNamed n t) = Kind t"
| "Kind TOther = KOther"

text \<open>\<open>Type.Elem()\<close>, which panics on a type that has no element type.\<close>

fun Elem :: "gtype \<Rightarrow> gtype option" where
  "Elem (TPtr t) = Some t"
| "Elem (TSlice t) = Some t"
| "Elem (TNamed n t) = Elem t"
| "Elem t = None"

text \<open>The zero value of a type (\<open>reflect.New\<close>, \<open>reflect.MakeSlice\<close>, \<open>time.Time{}\<close>).\<close>

fun Zero :: "gtype \<Rightarrow> val" and ZeroField :: "sfield \<Rightarrow> val" where
  "Zero TBool = VBool False"
| "Zero TInt = VInt 0"
| "Zero TInt8 = VInt 0"
| "Zero TInt16 = VInt 0"
| "Zero TInt32 = VInt 0"
| "Zero TInt64 = VInt 0"
| "Zero TUint = VUint 0"
| "Zero TUint8 = VUint 0"
| "Zero TUint16 = VUint 0"
| "Zero TUint32 = VUint 0"
| "Zero TUint64 = VUint 0"
| "Zero TFloat32 = VFloat 0"
| "Zero TFloat64 = VFloat 0"
| "Zero TString = VString []"
| "Zero (TPtr t) = VPtr None"
| "Zero (TSlice t) = VSlice []"
| "Zero (TStruct fs) = VStruct (map ZeroField fs)"
| "Zero TTime = VTime 0"
| "Zero (TNamed n t) = Zero t"
| "Zero TOther = VOther"
| "ZeroField (StructField n p tg t) = Zero t"

text \<open>\<open>StructTag.Get\<close>: the value under a key, the empty string when there is none.\<close>

definition TagGet :: "(string \<times> string) list \<Rightarrow> string \<Rightarrow> string" where
  "TagGet tg key = (case map_of tg key of None \<Rightarrow> [] | Some v \<Rightarrow> v)"

text \<open>
  \<open>Value.CanSet\<close> of a field of an addressable struct: the field is exported.
\<close>

definition CanSet :: "sfield \<Rightarrow> bool" where
  "CanSet f = (PkgPath f = [])"

subsection \<open>What the binder takes from its surroundings\<close>

text \<open>
  The library functions that are not modelled bit by bit, and the types' own
  \<open>UnmarshalParam\<close> methods. \<open>UnmarshalParam t\<close> is \<open>None\<close> when \<open>*t\<close> does not
  implement \<open>BindUnmarshaler\<close>; otherwise it is the method, which takes the receiver's
  contents and the parameter and returns the receiver's contents afterwards and the error
  message, if it fails. \<open>ParseFloat\<close>, \<open>LoadLocation\<close> and \<open>ParseInLocation\<close> return
  their result and their error the same way; a location is its name.
\<close>

record golib =
  IntSize :: nat
  ToLower :: "string \<Rightarrow> string"
  ParseFloat :: "string \<Rightarrow> nat \<Rightarrow> real \<times> numerr option"
  LoadLocation :: "string \<Rightarrow> string \<times> string option"
  ParseInLocation :: "string \<Rightarrow> string \<Rightarrow> string \<Rightarrow> int \<times> string option"
  UnmarshalParam :: "gtype \<Rightarrow> (val \<Rightarrow> string \<Rightarrow> val \<times> string option) option"

subsection \<open>The scalar setters\<close>

text \<open>
  \<open>Value.SetInt\<close>, \<open>SetUint\<close>, \<open>SetBool\<close>, \<open>SetFloat\<close> and \<open>SetString\<close> panic on
  a value of another kind.
\<close>

definition SetInt :: "val \<Rightarrow> int \<Rightarrow> val \<times> error option" where
  "SetInt field i = (case field of VInt old \<Rightarrow> (VInt i, None) | _ \<Rightarrow> (field, Some PanicReflect))"

definition SetUint :: "val \<Rightarrow> nat \<Rightarrow> val \<times> error option" where
  "SetUint field u = (case field of VUint old \<Rightarrow> (VUint u, None) | _ \<Rightarrow> (field, Some PanicReflect))"

definition SetBool :: "val \<Rightarrow> bool \<Rightarrow> val \<times> error option" where
  "SetBool field b = (case field of VBool old \<Rightarrow> (VBool b, None) | _ \<Rightarrow> (field, Some PanicReflect))"

definition SetFloat :: "val \<Rightarrow> real \<Rightarrow> val \<times> error option" where
  "SetFloat field x = (case field of VFloat old \<Rightarrow> (VFloat x, None) | _ \<Rightarrow> (field, Some PanicReflect))"

definition SetString :: "val \<Rightarrow> string \<Rightarrow> val \<times> error option" where
  "SetString field s = (case field of VString old \<Rightarrow> (VString s, None) | _ \<Rightarrow> (field, Some PanicReflect))"

definition setIntField :: "golib \<Rightarrow> string \<Rightarrow> nat \<Rightarrow> val \<Rightarrow> val \<times> error option" where
  "setIntField lib value bitSize field =
     (let value = (if value = [] then ''0'' else value);
          (intVal, err) = ParseInt (IntSize lib) value bitSize
      in case err of
           None \<Rightarrow> SetInt field intVal
         | Some e \<Rightarrow> (field, Some (NumError ''ParseInt'' value e)))"

definition setUintField :: "golib \<Rightarrow> string \<Rightarrow> nat \<Rightarrow> val \<Rightarrow> val \<times> error option" where
  "setUintField lib value bitSize field =
     (let value = (if value = [] then ''0'' else value);
          (uintVal, err) = ParseUint (IntSize lib) value bitSize
      in case err of
           None \<Rightarrow> SetUint field uintVal
         | Some e \<Rightarrow> (field, Some (NumError ''ParseUint'' value e)))"

definition setBoolField :: "string \<Rightarrow> val \<Rightarrow> val \<times> error option" where
  "setBoolField value field =
     (let value = (if value = [] then ''false'' else value);
          (boolVal, err) = ParseBool value
      in case err of
           None \<Rightarrow> SetBool field boolVal
         | Some e \<Rightarrow> (field, Some (NumError ''ParseBool'' value e)))"

definition setFloatField :: "golib \<Rightarrow> string \<Rightarrow> nat \<Rightarrow> val \<Rightarrow> val \<times> error option" where
  "setFloatField lib value bitSize field =
     (let value = (if value = [] then ''0.0'' else value);
          (floatVal, err) = ParseFloat lib value bitSize
      in case err of
           None \<Rightarrow> SetFloat field floatVal
         | Some e \<Rightarrow> (field, Some (NumError ''ParseFloat'' value e)))"

text \<open>
  \<open>setTimeField\<close>. \<open>time.Local\<close> and \<open>time.UTC\<close> are the locations of those names.
\<close>

definition setTimeField :: "golib \<Rightarrow> string \<Rightarrow> sfield \<Rightarrow> val \<Rightarrow> val \<times> error option" where
  "setTimeField lib value structField field =
     (let timeFormat = TagGet (Tag structField) ''time_format''
      in if timeFormat = [] then (field, Some ErrBlankTimeFormat)
         else if value = [] then (VTime 0, None)
         else
           let l = (if fst (ParseBool (TagGet (Tag structField) ''time_utc'')) then ''UTC''
                    else ''Local'');
               locTag = TagGet (Tag structField) ''time_location'';
               (loc, lerr) = (if locTag \<noteq> [] then LoadLocation lib locTag else (l, None))
           in case lerr of
                Some msg \<Rightarrow> (field, Some (ErrTime msg))
              | None \<Rightarrow>
                  (case ParseInLocation lib timeFormat value loc of
                     (t, Some msg) \<Rightarrow> (field, Some (ErrTime msg))
                   | (t, None) \<Rightarrow> (VTime t, None)))"

subsection \<open>The custom unmarshal hook\<close>

definition bindUnmarshaler :: "golib \<Rightarrow> gtype \<Rightarrow> (val \<Rightarrow> string \<Rightarrow> val \<times> string option) option" where
  "bindUnmarshaler lib fieldType = UnmarshalParam lib fieldType"

definition unmarshalFieldNonPtr ::
  "golib \<Rightarrow> string \<Rightarrow> gtype \<Rightarrow> val \<Rightarrow> bool \<times> val \<times> error option" where
  "unmarshalFieldNonPtr lib value fieldType field =
     (case bindUnmarshaler lib fieldType of
        Some unmarshalParam \<Rightarrow>
          (let (unmarshaler, err) = unmarshalParam (Zero fieldType) value
           in (True, unmarshaler, map_option ErrUnmarshalParam err))
      | None \<Rightarrow> (False, field, None))"

definition unmarshalFieldPtr ::
  "golib \<Rightarrow> string \<Rightarrow> gtype \<Rightarrow> val \<Rightarrow> bool \<times> val \<times> error option" where
  "unmarshalFieldPtr lib value fieldType field =
     (case (field, Elem fieldType) of
        (VPtr p, Some elemType) \<Rightarrow>
          (let pointee = (case p of None \<Rightarrow> Zero elemType | Some x \<Rightarrow> x);
               (ok, pointee', err) = unmarshalFieldNonPtr lib value elemType pointee
           in (ok, VPtr (Some pointee'), err))
      | _ \<Rightarrow> (True, field, Some PanicReflect))"

definition unmarshalField ::
  "golib \<Rightarrow> kind \<Rightarrow> string \<Rightarrow> gtype \<Rightarrow> val \<Rightarrow> bool \<times> val \<times> error option" where
  "unmarshalField lib valueKind v fieldType field =
     (case valueKind of
        KPtr \<Rightarrow> unmarshalFieldPtr lib v fieldType field
      | _ \<Rightarrow> unmarshalFieldNonPtr lib v fieldType field)"

function setWithProperType ::
  "golib \<Rightarrow> kind \<Rightarrow> string \<Rightarrow> gtype \<Rightarrow> val \<Rightarrow> val \<times> error option" where
  "setWithProperType lib valueKind v fieldType structField =
     (case unmarshalField lib valueKind v fieldType structField of
        (True, field, err) \<Rightarrow> (field, err)
      | (False, field, err) \<Rightarrow>
          (case valueKind of
             KPtr \<Rightarrow>
               (case (field, Elem fieldType) of
                  (VPtr p, Some elemType) \<Rightarrow>
                    (let pointee = (case p of None \<Rightarrow> Zero elemType | Some x \<Rightarrow> x);
                         (pointee', e) = setWithProperType lib (Kind elemType) v elemType pointee
                     in (VPtr (Some pointee'), e))
                | _ \<Rightarrow> (field, Some PanicReflect))
           | KInt \<Rightarrow> setIntField lib v 0 field
           | KInt8 \<Rightarrow> setIntField lib v 8 field
           | KInt16 \<Rightarrow> setIntField lib v 16 field
           | KInt32 \<Rightarrow> setIntField lib v 32 field
           | KInt64 \<Rightarrow> setIntField lib v 64 field
           | KUint \<Rightarrow> setUintField lib v 0 field
           | KUint8 \<Rightarrow> setUintField lib v 8 field
           | KUint16 \<Rightarrow> setUintField lib v 16 field
           | KUint32 \<Rightarrow> setUintField lib v 32 field
           | KUint64 \<Rightarrow> setUintField lib v 64 field
           | KBool \<Rightarrow> setBoolField v field
           | KFloat32 \<Rightarrow> setFloatField lib v 32 field
           | KFloat64 \<Rightarrow> setFloatField lib v 64 field
           | KString \<Rightarrow> SetString field v
           | _ \<Rightarrow> (field, Some ErrUnknownType)))"
  by pat_completeness auto
termination
proof -
  have smaller: "size e < size t" if "Some e = Elem t" for t e
    using that by (induction t rule: Elem.induct) auto
  show ?thesis
    by (relation "measure (\<lambda>(lib, k, v, t, f). size t)") (auto dest: smaller)
qed

subsection \<open>The struct walker\<close>

text \<open>
  The source data, \<open>map[string][]string\<close>, as the list of its entries in the order in
  which \<open>range\<close> visits them (an order that Go leaves open). \<open>map_of\<close> is the lookup
  \<open>data[key]\<close>.
\<close>

type_synonym params = "(string \<times> string list) list"

text \<open>
  Lines 136 to 150 of \<open>bindData\<close>: the values under the field's name, and when the map
  has no such key, the values of the first key visited that is equal to it in lower case.
\<close>

definition lookupInput :: "golib \<Rightarrow> params \<Rightarrow> string \<Rightarrow> string list option" where
  "lookupInput lib data inputFieldName =
     (case map_of data inputFieldName of
        Some inputValue \<Rightarrow> Some inputValue
      | None \<Rightarrow>
          map_option snd
            (find (\<lambda>(k, v). ToLower lib k = ToLower lib inputFieldName) data))"

text \<open>
  The loop over \<open>j\<close> that fills the new slice: \<open>inputValue[j]\<close> and \<open>slice.Index(j)\<close>
  panic out of range.
\<close>

function setSliceElems ::
  "golib \<Rightarrow> kind \<Rightarrow> gtype \<Rightarrow> string list \<Rightarrow> nat \<Rightarrow> nat \<Rightarrow> val list \<Rightarrow> val list \<times> error option" where
  "setSliceElems lib sliceOf elemType inputValue numElems j slice =
     (if j < numElems then
        (if j < length inputValue \<and> j < length slice then
           (case setWithProperType lib sliceOf (inputValue ! j) elemType (slice ! j) of
              (x, Some err) \<Rightarrow> (slice[j := x], Some err)
            | (x, None) \<Rightarrow>
                setSliceElems lib sliceOf elemType inputValue numElems (Suc j) (slice[j := x]))
         else (slice, Some PanicIndexOutOfRange))
      else (slice, None))"
  by pat_completeness auto
termination
  by (relation "measure (\<lambda>(lib, k, t, i, n, j, s). n - j)") auto

text \<open>How a turn of the loop ends: with \<open>continue\<close>, or with a \<open>return\<close> of the error.\<close>

datatype flow = Continue | Return "error option"

text \<open>
  Lines 156 to 183 of \<open>bindData\<close>: what the loop does with a field once its values are
  found. The timestamp branch returns what \<open>setTimeField\<close> returns, \<open>nil\<close> too. The
  source hands \<open>setTimeField\<close> the whole \<open>inputValue\<close> where it takes one string; the
  model hands it the first value.
\<close>

definition bindValue :: "golib \<Rightarrow> sfield \<Rightarrow> val \<Rightarrow> string list \<Rightarrow> val \<times> flow" where
  "bindValue lib typeField structField inputValue =
     (case inputValue of
        [] \<Rightarrow> (structField, Return (Some PanicIndexOutOfRange))
      | first # rest \<Rightarrow>
          (case unmarshalField lib (Kind (Type typeField)) first (Type typeField) structField of
             (True, field, Some err) \<Rightarrow> (field, Return (Some err))
           | (True, field, None) \<Rightarrow> (field, Continue)
           | (False, field, err) \<Rightarrow>
               (let numElems = length inputValue
                in if Kind (Type typeField) = KSlice \<and> numElems > 0 then
                     (case Elem (Type typeField) of
                        None \<Rightarrow> (field, Return (Some PanicReflect))
                      | Some elemType \<Rightarrow>
                          (case setSliceElems lib (Kind elemType) elemType inputValue numElems 0
                                  (replicate numElems (Zero elemType)) of
                             (slice, Some err) \<Rightarrow> (field, Return (Some err))
                           | (slice, None) \<Rightarrow> (VSlice slice, Continue)))
                   else if Type typeField = TTime then
                     (case setTimeField lib first typeField field of
                        (field', err) \<Rightarrow> (field', Return err))
                   else
                     (case setWithProperType lib (Kind (Type typeField)) first (Type typeField) field of
                        (field', Some err) \<Rightarrow> (field', Return (Some err))
                      | (field', None) \<Rightarrow> (field', Continue)))))"

text \<open>
  \<open>typ.Field(i)\<close> for the \<open>i\<close> below \<open>typ.NumField()\<close>. The three fields of
  \<open>time.Time\<close> are unexported and are not part of the model.
\<close>

fun Fields :: "gtype \<Rightarrow> sfield list" where
  "Fields (TStruct fs) = fs"
| "Fields (TNamed n t) = Fields t"
| "Fields t = []"

text \<open>
  \<open>bindData\<close>, with \<open>bindField\<close> for one turn of its loop over the fields and
  \<open>bindFields\<close> for the loop: the fields still to visit and their values. On a
  \<open>time.Time\<close> every turn of the loop ends at the first \<open>continue\<close>, as no field of it
  can be set.
\<close>

function bindData :: "golib \<Rightarrow> gtype \<Rightarrow> val \<Rightarrow> params \<Rightarrow> string \<Rightarrow> val \<times> error option"
  and bindField :: "golib \<Rightarrow> sfield \<Rightarrow> val \<Rightarrow> params \<Rightarrow> string \<Rightarrow> val \<times> flow"
  and bindFields ::
    "golib \<Rightarrow> sfield list \<Rightarrow> val list \<Rightarrow> params \<Rightarrow> string \<Rightarrow> val list \<times> error option" where
  "bindData lib typ v data tag =
     (if Kind typ \<noteq> KStruct then (v, Some ErrNotStruct)
      else
        (case v of
           VStruct vs \<Rightarrow>
             (case bindFields lib (Fields typ) vs data tag of (vs', err) \<Rightarrow> (VStruct vs', err))
         | VTime t \<Rightarrow> (v, None)
         | _ \<Rightarrow> (v, Some PanicReflect)))"
| "bindField lib typeField structField data tag =
     (if \<not> CanSet typeField then (structField, Continue)
      else if TagGet (Tag typeField) tag = []
              \<and> bindUnmarshaler lib (Type typeField) = None
              \<and> Kind (Type typeField) = KStruct then
        (case bindData lib (Type typeField) structField data tag of
           (field, Some err) \<Rightarrow> (field, Return (Some err))
         | (field, None) \<Rightarrow> (field, Continue))
      else
        (let inputFieldName =
               (if TagGet (Tag typeField) tag = [] then Name typeField
                else TagGet (Tag typeField) tag)
         in case lookupInput lib data inputFieldName of
              None \<Rightarrow> (structField, Continue)
            | Some inputValue \<Rightarrow> bindValue lib typeField structField inputValue))"
| "bindFields lib [] vs data tag = (vs, None)"
| "bindFields lib (typeField # fs) [] data tag = ([], Some PanicReflect)"
| "bindFields lib (typeField # fs) (structField # vs) data tag =
     (case bindField lib typeField structField data tag of
        (field, Return err) \<Rightarrow> (field # vs, err)
      | (field, Continue) \<Rightarrow>
          (case bindFields lib fs vs data tag of (vs', err) \<Rightarrow> (field # vs', err)))"
  by pat_completeness auto
termination
proof -
  have fields: "size_list size (Fields t) \<le> size t" for t
    by (induction t rule: Fields.induct) auto
  have field: "size (Type f) < size f" for f
    by (cases f) simp
  show ?thesis
  proof (relation "measure (\<lambda>x. case x of
      Inl (lib, t, v, data, tag) \<Rightarrow> 3 * size t + 2
    | Inr (Inl (lib, f, v, data, tag)) \<Rightarrow> 3 * size f
    | Inr (Inr (lib, fs, vs, data, tag)) \<Rightarrow> 3 * size_list size fs + 1)", goal_cases)
    case 1
    show ?case by simp
  next
    case (2 lib t v data tag vs)
    show ?case using fields [of t] by simp
  next
    case (3 lib f v data tag)
    show ?case using field [of f] by simp
  next
    case 4
    show ?case by simp
  next
    case 5
    show ?case by simp
  qed
qed

declare setWithProperType.simps [simp del]
declare setSliceElems.simps [simp del]
declare bindData.simps [simp del]
declare bindField.simps [simp del]

subsection \<open>Decimal strings\<close>

text \<open>
  The base 10 string of a number, as \<open>strconv.FormatUint\<close> and \<open>strconv.FormatInt\<close>
  write it: the digits without leading zeros, after a minus sign for a negative number.
\<close>

definition digitChar :: "nat \<Rightarrow> char" where
  "digitChar d = ''0123456789'' ! d"

fun FormatUint :: "nat \<Rightarrow> string" where
  "FormatUint n = (if n < 10 then [digitChar n] else FormatUint (n div 10) @ [digitChar (n mod 10)])"

definition FormatInt :: "int \<Rightarrow> string" where
  "FormatInt i = (if i < 0 then CHR ''-'' # FormatUint (nat (- i)) else FormatUint (nat i))"

declare FormatUint.simps [simp del]

text \<open>The width that a kind of integer has on the platform.\<close>

fun bitsOf :: "golib \<Rightarrow> kind \<Rightarrow> nat" where
  "bitsOf lib KInt = IntSize lib"
| "bitsOf lib KInt8 = 8"
| "bitsOf lib KInt16 = 16"
| "bitsOf lib KInt32 = 32"
| "bitsOf lib KInt64 = 64"
| "bitsOf lib KUint = IntSize lib"
| "bitsOf lib KUint8 = 8"
| "bitsOf lib KUint16 = 16"
| "bitsOf lib KUint32 = 32"
| "bitsOf lib KUint64 = 64"
| "bitsOf lib k = 0"

subsection \<open>Kinds of contents\<close>

text \<open>The contents that a value of a scalar kind has.\<close>

fun hasKind :: "val \<Rightarrow> kind \<Rightarrow> bool" where
  "hasKind (VBool b) k = (k = KBool)"
| "hasKind (VInt i) k = (k = KInt \<or> k = KInt8 \<or> k = KInt16 \<or> k = KInt32 \<or> k = KInt64)"
| "hasKind (VUint u) k = (k = KUint \<or> k = KUint8 \<or> k = KUint16 \<or> k = KUint32 \<or> k = KUint64)"
| "hasKind (VFloat x) k = (k = KFloat32 \<or> k = KFloat64)"
| "hasKind (VString s) k = (k = KString)"
| "hasKind v k = False"

text \<open>The field name under which the walker looks a field up: its tag, else its name.\<close>

definition inputFieldName :: "sfield \<Rightarrow> string \<Rightarrow> string" where
  "inputFieldName typeField tag =
     (if TagGet (Tag typeField) tag = [] then Name typeField else TagGet (Tag typeField) tag)"

text \<open>
  The fields that the walker does not look up but walks in place: no tag for the mode, a
  struct, and no \<open>UnmarshalParam\<close>.
\<close>

definition walkedInPlace :: "golib \<Rightarrow> sfield \<Rightarrow> string \<Rightarrow> bool" where
  "walkedInPlace lib typeField tag =
     (TagGet (Tag typeField) tag = [] \<and> bindUnmarshaler lib (Type typeField) = None
      \<and> Kind (Type typeField) = KStruct)"


subsection \<open>A library to run the walker on\<close>

text \<open>\<open>strings.ToLower\<close> on ASCII.\<close>

definition asciiLower :: "string \<Rightarrow> string" where
  "asciiLower s =
     map (\<lambda>c. if 65 \<le> (of_char c :: nat) \<and> (of_char c :: nat) \<le> 90
              then ''abcdefghijklmnopqrstuvwxyz'' ! ((of_char c :: nat) - 65) else c) s"

text \<open>
  A 64-bit platform on which \<open>ParseFloat\<close> reads \<open>0.0\<close> and nothing else, every
  location loads, no time parses, and one type has an \<open>UnmarshalParam\<close>: the defined type
  \<open>Celsius\<close> over \<open>int\<close>, which reads \<open>hot\<close> as 100 and fails on every other
  parameter, leaving its receiver as it was.
\<close>

definition celsiusParam :: "val \<Rightarrow> string \<Rightarrow> val \<times> string option" where
  "celsiusParam receiver param =
     (if param = ''hot'' then (VInt 100, None) else (receiver, Some ''not a temperature''))"

definition testLib :: golib where
  "testLib =
     \<lparr> IntSize = 64,
       ToLower = asciiLower,
       ParseFloat = (\<lambda>s bitSize. if s = ''0.0'' then (0, None) else (0, Some ErrSyntax)),
       LoadLocation = (\<lambda>name. (name, None)),
       ParseInLocation = (\<lambda>layout v loc. (0, Some ''cannot parse'')),
       UnmarshalParam = (\<lambda>t. if t = TNamed ''Celsius'' TInt then Some celsiusParam else None) \<rparr>"

section \<open>Properties\<close>

subsection \<open>Decimal digits\<close>

lemma digitChar_digit:
  assumes "d < 10"
  shows "isDigit (digitChar d) \<and> digitVal (digitChar d) = d"
proof -
  from assms
  have "d = 0 \<or> d = 1 \<or> d = 2 \<or> d = 3 \<or> d = 4 \<or> d = 5 \<or> d = 6 \<or> d = 7 \<or> d = 8 \<or> d = 9"
    by arith
  then show ?thesis
    by (elim disjE) (simp_all add: digitChar_def isDigit_def digitVal_def)
qed

lemma parseLoop_snoc:
  "parseLoop m n (xs @ [c]) =
     (case parseLoop m n xs of (k, None) \<Rightarrow> parseLoop m k [c] | (k, Some e) \<Rightarrow> (k, Some e))"
  by (induction xs arbitrary: n) (simp_all add: Let_def)

lemma parseLoop_digit:
  assumes "d < 10" and "10 * n + d \<le> m" and "m < 2 ^ 64"
  shows "parseLoop m n [digitChar d] = (10 * n + d, None)"
proof -
  have small: "10 * n + d < 2 ^ 64"
    using assms by simp
  then have "n < cutoff64"
    by (simp add: cutoff64_def)
  moreover have "(n * 10 + d) mod 2 ^ 64 = 10 * n + d"
    using small by (simp add: mult.commute)
  ultimately show ?thesis
    using assms digitChar_digit [of d] by (simp add: Let_def)
qed

lemma parseLoop_FormatUint:
  assumes "m < 2 ^ 64"
  shows "v \<le> m \<Longrightarrow> parseLoop m 0 (FormatUint v) = (v, None)"
proof (induction v rule: FormatUint.induct)
  case (1 n)
  show ?case
  proof (cases "n < 10")
    case True
    then show ?thesis
      using parseLoop_digit [of n 0 m] assms 1(2) by (simp add: FormatUint.simps [of n])
  next
    case False
    then have "parseLoop m 0 (FormatUint (n div 10)) = (n div 10, None)"
      using 1 by simp
    moreover have "parseLoop m (n div 10) [digitChar (n mod 10)] = (n, None)"
      using parseLoop_digit [of "n mod 10" "n div 10" m] assms 1(2) by simp
    ultimately show ?thesis
      using False by (simp add: FormatUint.simps [of n] parseLoop_snoc)
  qed
qed

lemma FormatUint_hd: "FormatUint n \<noteq> [] \<and> isDigit (hd (FormatUint n))"
proof (induction n rule: FormatUint.induct)
  case (1 n)
  show ?case
  proof (cases "n < 10")
    case True
    then show ?thesis
      using digitChar_digit [of n] by (simp add: FormatUint.simps [of n])
  next
    case False
    then show ?thesis
      using 1 by (simp add: FormatUint.simps [of n])
  qed
qed

lemma ParseUint_FormatUint:
  assumes "bs = (if bitSize = 0 then intSize else bitSize)" and "bs \<le> 64" and "u < 2 ^ bs"
  shows "ParseUint intSize (FormatUint u) bitSize = (u, None)"
proof -
  have "(2::nat) ^ bs \<le> 2 ^ 64"
    using assms(2) by (rule power_increasing) simp
  then have "(2::nat) ^ bs - 1 < 2 ^ 64"
    by simp
  moreover have "u \<le> 2 ^ bs - 1"
    using assms(3) by simp
  ultimately have "parseLoop (2 ^ bs - 1) 0 (FormatUint u) = (u, None)"
    by (rule parseLoop_FormatUint)
  then show ?thesis
    using assms(1,2) FormatUint_hd [of u] by (auto simp add: ParseUint_def Let_def)
qed

lemma ParseInt_FormatInt:
  assumes "bs = (if bitSize = 0 then intSize else bitSize)" and "0 < bs" and "bs \<le> 64"
    and "- (2 ^ (bs - 1)) \<le> i" and "i < 2 ^ (bs - 1)"
  shows "ParseInt intSize (FormatInt i) bitSize = (i, None)"
proof -
  have half: "(2::nat) ^ (bs - 1) < 2 ^ bs"
    using assms(2) by (simp add: power_strict_increasing)
  show ?thesis
  proof (cases "i < 0")
    case False
    then have lt: "nat i < 2 ^ (bs - 1)"
      using assms(5) by (simp add: nat_less_iff)
    then have "nat i < 2 ^ bs"
      using half by (rule less_trans)
    then have "ParseUint intSize (FormatUint (nat i)) bitSize = (nat i, None)"
      by (rule ParseUint_FormatUint [OF assms(1) assms(3)])
    moreover have "hd (FormatUint (nat i)) \<noteq> CHR ''-''" "hd (FormatUint (nat i)) \<noteq> CHR ''+''"
      using FormatUint_hd [of "nat i"] by (auto simp add: isDigit_def)
    ultimately show ?thesis
      using False FormatUint_hd [of "nat i"] lt
      by (auto simp add: ParseInt_def FormatInt_def Let_def assms(1) [symmetric])
  next
    case True
    then have le: "nat (- i) \<le> 2 ^ (bs - 1)"
      using assms(4) by (simp add: nat_le_iff)
    then have "nat (- i) < 2 ^ bs"
      using half by (rule le_less_trans)
    then have "ParseUint intSize (FormatUint (nat (- i))) bitSize = (nat (- i), None)"
      by (rule ParseUint_FormatUint [OF assms(1) assms(3)])
    then show ?thesis
      using True le by (auto simp add: ParseInt_def FormatInt_def Let_def assms(1) [symmetric])
  qed
qed

lemma setWithProperType_plain:
  assumes "UnmarshalParam lib t = None" and "k \<noteq> KPtr"
  shows "setWithProperType lib k v t field =
     (case k of
        KInt \<Rightarrow> setIntField lib v 0 field
      | KInt8 \<Rightarrow> setIntField lib v 8 field
      | KInt16 \<Rightarrow> setIntField lib v 16 field
      | KInt32 \<Rightarrow> setIntField lib v 32 field
      | KInt64 \<Rightarrow> setIntField lib v 64 field
      | KUint \<Rightarrow> setUintField lib v 0 field
      | KUint8 \<Rightarrow> setUintField lib v 8 field
      | KUint16 \<Rightarrow> setUintField lib v 16 field
      | KUint32 \<Rightarrow> setUintField lib v 32 field
      | KUint64 \<Rightarrow> setUintField lib v 64 field
      | KBool \<Rightarrow> setBoolField v field
      | KFloat32 \<Rightarrow> setFloatField lib v 32 field
      | KFloat64 \<Rightarrow> setFloatField lib v 64 field
      | KString \<Rightarrow> SetString field v
      | _ \<Rightarrow> (field, Some ErrUnknownType))"
  using assms
  by (cases k)
    (simp_all add: setWithProperType.simps unmarshalField_def unmarshalFieldNonPtr_def
      bindUnmarshaler_def)

lemma setIntField_FormatInt:
  assumes "bs = (if bitSize = 0 then IntSize lib else bitSize)" and "0 < bs" and "bs \<le> 64"
    and "- (2 ^ (bs - 1)) \<le> i" and "i < 2 ^ (bs - 1)"
  shows "setIntField lib (FormatInt i) bitSize (VInt old) = (VInt i, None)"
proof -
  have "FormatInt i \<noteq> []"
    using FormatUint_hd by (simp add: FormatInt_def)
  then show ?thesis
    using ParseInt_FormatInt [OF assms] by (simp add: setIntField_def SetInt_def)
qed

lemma setUintField_FormatUint:
  assumes "bs = (if bitSize = 0 then IntSize lib else bitSize)" and "bs \<le> 64" and "u < 2 ^ bs"
  shows "setUintField lib (FormatUint u) bitSize (VUint old) = (VUint u, None)"
  using ParseUint_FormatUint [OF assms] FormatUint_hd [of u]
  by (simp add: setUintField_def SetUint_def)

lemma setWithProperType_decimal:
  assumes "IntSize lib = 32 \<or> IntSize lib = 64" and "UnmarshalParam lib t = None"
  shows "(k \<in> {KInt, KInt8, KInt16, KInt32, KInt64}
            \<and> - (2 ^ (bitsOf lib k - 1)) \<le> i \<and> i < 2 ^ (bitsOf lib k - 1)
          \<longrightarrow> setWithProperType lib k (FormatInt i) t (VInt old) = (VInt i, None))
       \<and> (k \<in> {KUint, KUint8, KUint16, KUint32, KUint64} \<and> u < 2 ^ bitsOf lib k
          \<longrightarrow> setWithProperType lib k (FormatUint u) t (VUint old') = (VUint u, None))"
proof (intro conjI impI)
  assume a: "k \<in> {KInt, KInt8, KInt16, KInt32, KInt64}
     \<and> - (2 ^ (bitsOf lib k - 1)) \<le> i \<and> i < 2 ^ (bitsOf lib k - 1)"
  then consider "k = KInt" | "k = KInt8" | "k = KInt16" | "k = KInt32" | "k = KInt64"
    by auto
  then show "setWithProperType lib k (FormatInt i) t (VInt old) = (VInt i, None)"
  proof cases
    case 1
    have "setIntField lib (FormatInt i) 0 (VInt old) = (VInt i, None)"
      using a 1 assms(1) by (intro setIntField_FormatInt [where bs = "IntSize lib"]) auto
    then show ?thesis
      using 1 assms(2) by (simp add: setWithProperType_plain)
  next
    case 2
    have "setIntField lib (FormatInt i) 8 (VInt old) = (VInt i, None)"
      using a 2 by (intro setIntField_FormatInt [where bs = 8]) auto
    then show ?thesis
      using 2 assms(2) by (simp add: setWithProperType_plain)
  next
    case 3
    have "setIntField lib (FormatInt i) 16 (VInt old) = (VInt i, None)"
      using a 3 by (intro setIntField_FormatInt [where bs = 16]) auto
    then show ?thesis
      using 3 assms(2) by (simp add: setWithProperType_plain)
  next
    case 4
    have "setIntField lib (FormatInt i) 32 (VInt old) = (VInt i, None)"
      using a 4 by (intro setIntField_FormatInt [where bs = 32]) auto
    then show ?thesis
      using 4 assms(2) by (simp add: setWithProperType_plain)
  next
    case 5
    have "setIntField lib (FormatInt i) 64 (VInt old) = (VInt i, None)"
      using a 5 by (intro setIntField_FormatInt [where bs = 64]) auto
    then show ?thesis
      using 5 assms(2) by (simp add: setWithProperType_plain)
  qed
next
  assume a: "k \<in> {KUint, KUint8, KUint16, KUint32, KUint64} \<and> u < 2 ^ bitsOf lib k"
  then consider "k = KUint" | "k = KUint8" | "k = KUint16" | "k = KUint32" | "k = KUint64"
    by auto
  then show "setWithProperType lib k (FormatUint u) t (VUint old') = (VUint u, None)"
  proof cases
    case 1
    have "setUintField lib (FormatUint u) 0 (VUint old') = (VUint u, None)"
      using a 1 assms(1) by (intro setUintField_FormatUint [where bs = "IntSize lib"]) auto
    then show ?thesis
      using 1 assms(2) by (simp add: setWithProperType_plain)
  next
    case 2
    have "setUintField lib (FormatUint u) 8 (VUint old') = (VUint u, None)"
      using a 2 by (intro setUintField_FormatUint [where bs = 8]) auto
    then show ?thesis
      using 2 assms(2) by (simp add: setWithProperType_plain)
  next
    case 3
    have "setUintField lib (FormatUint u) 16 (VUint old') = (VUint u, None)"
      using a 3 by (intro setUintField_FormatUint [where bs = 16]) auto
    then show ?thesis
      using 3 assms(2) by (simp add: setWithProperType_plain)
  next
    case 4
    have "setUintField lib (FormatUint u) 32 (VUint old') = (VUint u, None)"
      using a 4 by (intro setUintField_FormatUint [where bs = 32]) auto
    then show ?thesis
      using 4 assms(2) by (simp add: setWithProperType_plain)
  next
    case 5
    have "setUintField lib (FormatUint u) 64 (VUint old') = (VUint u, None)"
      using a 5 by (intro setUintField_FormatUint [where bs = 64]) auto
    then show ?thesis
      using 5 assms(2) by (simp add: setWithProperType_plain)
  qed
qed

text \<open>
  C6. On a platform whose \<open>int\<close> has 32 or 64 bits: \<open>setIntField\<close>, at each of the
  bit sizes that the binder passes, takes the decimal string of every number that fits the
  size, succeeds and leaves that number in the field, and \<open>setUintField\<close> likewise; and
  so does \<open>setWithProperType\<close> at each of the five signed and the five unsigned kinds,
  for every number in the range of the kind, on a type without \<open>UnmarshalParam\<close>.
\<close>

theorem decimal_round_trip:
  assumes "IntSize lib = 32 \<or> IntSize lib = 64"
  shows "(bitSize \<in> {0, 8, 16, 32, 64}
            \<and> - (2 ^ ((if bitSize = 0 then IntSize lib else bitSize) - 1)) \<le> i
            \<and> i < 2 ^ ((if bitSize = 0 then IntSize lib else bitSize) - 1)
          \<longrightarrow> setIntField lib (FormatInt i) bitSize (VInt old) = (VInt i, None))
       \<and> (bitSize \<in> {0, 8, 16, 32, 64} \<and> u < 2 ^ (if bitSize = 0 then IntSize lib else bitSize)
          \<longrightarrow> setUintField lib (FormatUint u) bitSize (VUint old') = (VUint u, None))
       \<and> (UnmarshalParam lib t = None \<and> k \<in> {KInt, KInt8, KInt16, KInt32, KInt64}
            \<and> - (2 ^ (bitsOf lib k - 1)) \<le> i \<and> i < 2 ^ (bitsOf lib k - 1)
          \<longrightarrow> setWithProperType lib k (FormatInt i) t (VInt old) = (VInt i, None))
       \<and> (UnmarshalParam lib t = None \<and> k \<in> {KUint, KUint8, KUint16, KUint32, KUint64}
            \<and> u < 2 ^ bitsOf lib k
          \<longrightarrow> setWithProperType lib k (FormatUint u) t (VUint old') = (VUint u, None))"
proof (intro conjI impI)
  assume a: "bitSize \<in> {0, 8, 16, 32, 64}
    \<and> - (2 ^ ((if bitSize = 0 then IntSize lib else bitSize) - 1)) \<le> i
    \<and> i < 2 ^ ((if bitSize = 0 then IntSize lib else bitSize) - 1)"
  show "setIntField lib (FormatInt i) bitSize (VInt old) = (VInt i, None)"
    using a assms
    by (intro setIntField_FormatInt [where bs = "if bitSize = 0 then IntSize lib else bitSize"])
      auto
next
  assume a: "bitSize \<in> {0, 8, 16, 32, 64} \<and> u < 2 ^ (if bitSize = 0 then IntSize lib else bitSize)"
  show "setUintField lib (FormatUint u) bitSize (VUint old') = (VUint u, None)"
    using a assms
    by (intro setUintField_FormatUint [where bs = "if bitSize = 0 then IntSize lib else bitSize"])
      auto
next
  assume "UnmarshalParam lib t = None \<and> k \<in> {KInt, KInt8, KInt16, KInt32, KInt64}
    \<and> - (2 ^ (bitsOf lib k - 1)) \<le> i \<and> i < 2 ^ (bitsOf lib k - 1)"
  then show "setWithProperType lib k (FormatInt i) t (VInt old) = (VInt i, None)"
    using setWithProperType_decimal [OF assms, of t k i old] by blast
next
  assume "UnmarshalParam lib t = None \<and> k \<in> {KUint, KUint8, KUint16, KUint32, KUint64}
    \<and> u < 2 ^ bitsOf lib k"
  then show "setWithProperType lib k (FormatUint u) t (VUint old') = (VUint u, None)"
    using setWithProperType_decimal [OF assms, of t k _ _ u old'] by blast
qed

lemma testLib_simps:
  "IntSize testLib = 64" "ToLower testLib = asciiLower"
  "LoadLocation testLib = (\<lambda>name. (name, None))"
  "UnmarshalParam testLib = (\<lambda>t. if t = TNamed ''Celsius'' TInt then Some celsiusParam else None)"
  "ParseFloat testLib = (\<lambda>s bitSize. if s = ''0.0'' then (0, None) else (0, Some ErrSyntax))"
  by (simp_all add: testLib_def)

theorem decimal_round_trip_witness:
  "setIntField testLib ''-128'' 8 (VInt 5) = (VInt (- 128), None)
   \<and> setUintField testLib ''65535'' 16 (VUint 5) = (VUint 65535, None)
   \<and> setWithProperType testLib KInt8 ''-128'' TInt8 (VInt 5) = (VInt (- 128), None)
   \<and> setWithProperType testLib KUint16 ''65535'' TUint16 (VUint 5) = (VUint 65535, None)"
proof -
  have f: "FormatInt (- 128) = ''-128''" "FormatUint 65535 = ''65535''"
    by (simp_all add: FormatInt_def FormatUint.simps digitChar_def)
  have lib: "IntSize testLib = 32 \<or> IntSize testLib = 64"
    by (simp add: testLib_simps)
  have "UnmarshalParam testLib TInt8 = None" "UnmarshalParam testLib TUint16 = None"
    by (simp_all add: testLib_simps)
  then show ?thesis
    using decimal_round_trip [OF lib, of 8 "- 128" 5 0 0 TInt8 KInt8]
      decimal_round_trip [OF lib, of 16 0 0 65535 5 TUint16 KUint16]
    by (simp add: f)
qed

lemma ParseInt_zero:
  assumes "intSize = 32 \<or> intSize = 64" and "bitSize \<in> {0, 8, 16, 32, 64}"
  shows "ParseInt intSize ''0'' bitSize = (0, None)"
  using assms
  by (auto simp add: ParseInt_def ParseUint_def isDigit_def digitVal_def cutoff64_def Let_def)

lemma ParseUint_zero:
  assumes "intSize = 32 \<or> intSize = 64" and "bitSize \<in> {0, 8, 16, 32, 64}"
  shows "ParseUint intSize ''0'' bitSize = (0, None)"
  using assms
  by (auto simp add: ParseUint_def isDigit_def digitVal_def cutoff64_def Let_def)

lemma setIntField_empty:
  assumes "IntSize lib = 32 \<or> IntSize lib = 64" and "bitSize \<in> {0, 8, 16, 32, 64}"
  shows "setIntField lib [] bitSize (VInt old) = (VInt 0, None)"
  using ParseInt_zero [OF assms] by (simp add: setIntField_def SetInt_def)

lemma setUintField_empty:
  assumes "IntSize lib = 32 \<or> IntSize lib = 64" and "bitSize \<in> {0, 8, 16, 32, 64}"
  shows "setUintField lib [] bitSize (VUint old) = (VUint 0, None)"
  using ParseUint_zero [OF assms] by (simp add: setUintField_def SetUint_def)

lemma setBoolField_empty: "setBoolField [] (VBool old) = (VBool False, None)"
  by (simp add: setBoolField_def ParseBool_def SetBool_def)

lemma setFloatField_empty:
  assumes "ParseFloat lib ''0.0'' bitSize = (0, None)"
  shows "setFloatField lib [] bitSize (VFloat old) = (VFloat 0, None)"
  using assms by (simp add: setFloatField_def SetFloat_def)

lemma Zero_scalar:
  "Kind t = KBool \<Longrightarrow> Zero t = VBool False"
  "Kind t \<in> {KInt, KInt8, KInt16, KInt32, KInt64} \<Longrightarrow> Zero t = VInt 0"
  "Kind t \<in> {KUint, KUint8, KUint16, KUint32, KUint64} \<Longrightarrow> Zero t = VUint 0"
  "Kind t \<in> {KFloat32, KFloat64} \<Longrightarrow> Zero t = VFloat 0"
  "Kind t = KString \<Longrightarrow> Zero t = VString []"
  by (induction t rule: Kind.induct; simp)+

lemma setWithProperType_empty:
  assumes "IntSize lib = 32 \<or> IntSize lib = 64"
    and "ParseFloat lib ''0.0'' 32 = (0, None)" and "ParseFloat lib ''0.0'' 64 = (0, None)"
    and "UnmarshalParam lib t = None" and "Kind t = k" and "hasKind old k"
  shows "setWithProperType lib k [] t old = (Zero t, None)
       \<and> Zero t \<in> {VBool False, VInt 0, VUint 0, VFloat 0, VString []}"
proof (cases old)
  case (VBool b)
  then show ?thesis
    using assms by (simp add: setWithProperType_plain setBoolField_empty Zero_scalar)
next
  case (VInt i)
  then have "k \<in> {KInt, KInt8, KInt16, KInt32, KInt64}"
    using assms(6) by simp
  then show ?thesis
    using VInt assms(1,4,5)
    by (auto simp add: setWithProperType_plain setIntField_empty Zero_scalar)
next
  case (VUint u)
  then have "k \<in> {KUint, KUint8, KUint16, KUint32, KUint64}"
    using assms(6) by simp
  then show ?thesis
    using VUint assms(1,4,5)
    by (auto simp add: setWithProperType_plain setUintField_empty Zero_scalar)
next
  case (VFloat x)
  then have "k \<in> {KFloat32, KFloat64}"
    using assms(6) by simp
  then show ?thesis
    using VFloat assms(2,3,4,5)
    by (auto simp add: setWithProperType_plain setFloatField_empty Zero_scalar)
next
  case (VString s)
  then show ?thesis
    using assms by (simp add: setWithProperType_plain SetString_def Zero_scalar)
qed (use assms(6) in simp_all)

text \<open>
  C3. On a platform whose \<open>int\<close> has 32 or 64 bits and whose \<open>ParseFloat\<close> reads
  \<open>0.0\<close> as zero: on the empty string, \<open>setIntField\<close> and \<open>setUintField\<close> at each
  bit size that the binder passes set the field to 0, \<open>setBoolField\<close> sets it to
  \<open>false\<close>, \<open>setFloatField\<close> at both bit sizes sets it to 0.0 and \<open>SetString\<close> sets
  it to the empty string, all without an error; and so \<open>setWithProperType\<close>, at a type
  of a scalar kind without \<open>UnmarshalParam\<close>, returns no error and leaves the zero value
  of the type in the field.
\<close>

theorem empty_token_zero:
  assumes "IntSize lib = 32 \<or> IntSize lib = 64"
    and "ParseFloat lib ''0.0'' 32 = (0, None)" and "ParseFloat lib ''0.0'' 64 = (0, None)"
  shows "(bitSize \<in> {0, 8, 16, 32, 64}
          \<longrightarrow> setIntField lib [] bitSize (VInt i) = (VInt 0, None)
            \<and> setUintField lib [] bitSize (VUint u) = (VUint 0, None))
       \<and> setBoolField [] (VBool b) = (VBool False, None)
       \<and> (bitSize \<in> {32, 64} \<longrightarrow> setFloatField lib [] bitSize (VFloat x) = (VFloat 0, None))
       \<and> SetString (VString s) [] = (VString [], None)
       \<and> (UnmarshalParam lib t = None \<and> Kind t = k \<and> hasKind old k
          \<longrightarrow> setWithProperType lib k [] t old = (Zero t, None)
            \<and> Zero t \<in> {VBool False, VInt 0, VUint 0, VFloat 0, VString []})"
proof (intro conjI impI)
  show "setIntField lib [] bitSize (VInt i) = (VInt 0, None)" if "bitSize \<in> {0, 8, 16, 32, 64}"
    using assms(1) that by (rule setIntField_empty)
  show "setUintField lib [] bitSize (VUint u) = (VUint 0, None)" if "bitSize \<in> {0, 8, 16, 32, 64}"
    using assms(1) that by (rule setUintField_empty)
  show "setBoolField [] (VBool b) = (VBool False, None)"
    by (rule setBoolField_empty)
  show "setFloatField lib [] bitSize (VFloat x) = (VFloat 0, None)" if "bitSize \<in> {32, 64}"
    using that assms(2,3) by (auto simp add: setFloatField_empty)
  show "SetString (VString s) [] = (VString [], None)"
    by (simp add: SetString_def)
  show "setWithProperType lib k [] t old = (Zero t, None)"
    if "UnmarshalParam lib t = None \<and> Kind t = k \<and> hasKind old k"
    using that setWithProperType_empty [OF assms, of t k old] by blast
  show "Zero t \<in> {VBool False, VInt 0, VUint 0, VFloat 0, VString []}"
    if "UnmarshalParam lib t = None \<and> Kind t = k \<and> hasKind old k"
    using that setWithProperType_empty [OF assms, of t k old] by blast
qed

theorem empty_token_zero_witness:
  "setIntField testLib [] 0 (VInt 7) = (VInt 0, None)
   \<and> setUintField testLib [] 8 (VUint 7) = (VUint 0, None)
   \<and> setFloatField testLib [] 32 (VFloat 2) = (VFloat 0, None)
   \<and> setWithProperType testLib KFloat32 [] TFloat32 (VFloat 2) = (VFloat 0, None)
   \<and> setWithProperType testLib KInt16 [] (TNamed ''Port'' TInt16) (VInt 8080) = (VInt 0, None)"
proof -
  have lib: "IntSize testLib = 32 \<or> IntSize testLib = 64"
    "ParseFloat testLib ''0.0'' 32 = (0, None)" "ParseFloat testLib ''0.0'' 64 = (0, None)"
    by (simp_all add: testLib_simps)
  have a: "UnmarshalParam testLib TFloat32 = None \<and> Kind TFloat32 = KFloat32
      \<and> hasKind (VFloat 2) KFloat32"
    by (simp add: testLib_simps)
  have b: "UnmarshalParam testLib (TNamed ''Port'' TInt16) = None
      \<and> Kind (TNamed ''Port'' TInt16) = KInt16 \<and> hasKind (VInt 8080) KInt16"
    by (simp add: testLib_simps)
  show ?thesis
    using a b
      empty_token_zero [OF lib, of 0 7 7 False 2 "[]" TFloat32 KFloat32 "VFloat 2"]
      empty_token_zero [OF lib, of 8 7 7 False 2 "[]" "TNamed ''Port'' TInt16" KInt16 "VInt 8080"]
      empty_token_zero [OF lib, of 32 7 7 False 2 "[]" TFloat32 KFloat32 "VFloat 2"]
    by simp
qed

text \<open>
  C7. \<open>setBoolField\<close> on a boolean field: the six tokens \<open>1 t T TRUE true True\<close>
  set it to true, the six tokens \<open>0 f F FALSE false False\<close> and the empty token set it
  to false, and every other token leaves it as it was and returns the syntax error of
  \<open>ParseBool\<close>.
\<close>

theorem setBoolField_tokens:
  "setBoolField v (VBool old) =
     (if v \<in> {''1'', ''t'', ''T'', ''TRUE'', ''true'', ''True''} then (VBool True, None)
      else if v \<in> {''0'', ''f'', ''F'', ''FALSE'', ''false'', ''False''} \<or> v = []
        then (VBool False, None)
      else (VBool old, Some (NumError ''ParseBool'' v ErrSyntax)))"
  by (simp add: setBoolField_def ParseBool_def SetBool_def)

theorem setBoolField_tokens_witness:
  "setBoolField ''TRUE'' (VBool False) = (VBool True, None)
   \<and> setBoolField ''F'' (VBool True) = (VBool False, None)
   \<and> setBoolField [] (VBool True) = (VBool False, None)
   \<and> setBoolField ''yes'' (VBool True) = (VBool True, Some (NumError ''ParseBool'' ''yes'' ErrSyntax))
   \<and> setBoolField ''tRUE'' (VBool True) = (VBool True, Some (NumError ''ParseBool'' ''tRUE'' ErrSyntax))"
  using setBoolField_tokens [of "''TRUE''" False] setBoolField_tokens [of "''F''" True]
    setBoolField_tokens [of "[]" True] setBoolField_tokens [of "''yes''" True]
    setBoolField_tokens [of "''tRUE''" True]
  by simp

text \<open>
  C9. Each of the four scalar setters, on any token and any field: when the parser
  returns an error, the setter returns the field as it was, with that error; so a field
  that the setter has changed was set from a token that parsed.
\<close>

theorem setters_write_only_on_success:
  "(snd (ParseInt (IntSize lib) (if v = [] then ''0'' else v) bitSize) = Some e
      \<longrightarrow> setIntField lib v bitSize field
          = (field, Some (NumError ''ParseInt'' (if v = [] then ''0'' else v) e)))
   \<and> (snd (ParseUint (IntSize lib) (if v = [] then ''0'' else v) bitSize) = Some e
      \<longrightarrow> setUintField lib v bitSize field
          = (field, Some (NumError ''ParseUint'' (if v = [] then ''0'' else v) e)))
   \<and> (snd (ParseBool (if v = [] then ''false'' else v)) = Some e
      \<longrightarrow> setBoolField v field
          = (field, Some (NumError ''ParseBool'' (if v = [] then ''false'' else v) e)))
   \<and> (snd (ParseFloat lib (if v = [] then ''0.0'' else v) bitSize) = Some e
      \<longrightarrow> setFloatField lib v bitSize field
          = (field, Some (NumError ''ParseFloat'' (if v = [] then ''0.0'' else v) e)))
   \<and> (fst (setIntField lib v bitSize field) \<noteq> field
      \<longrightarrow> snd (ParseInt (IntSize lib) (if v = [] then ''0'' else v) bitSize) = None)
   \<and> (fst (setUintField lib v bitSize field) \<noteq> field
      \<longrightarrow> snd (ParseUint (IntSize lib) (if v = [] then ''0'' else v) bitSize) = None)
   \<and> (fst (setBoolField v field) \<noteq> field
      \<longrightarrow> snd (ParseBool (if v = [] then ''false'' else v)) = None)
   \<and> (fst (setFloatField lib v bitSize field) \<noteq> field
      \<longrightarrow> snd (ParseFloat lib (if v = [] then ''0.0'' else v) bitSize) = None)"
proof (intro conjI impI)
  show "setIntField lib v bitSize field
      = (field, Some (NumError ''ParseInt'' (if v = [] then ''0'' else v) e))"
    if "snd (ParseInt (IntSize lib) (if v = [] then ''0'' else v) bitSize) = Some e"
    using that by (cases "v = []") (auto simp add: setIntField_def Let_def split: prod.splits)
  show "setUintField lib v bitSize field
      = (field, Some (NumError ''ParseUint'' (if v = [] then ''0'' else v) e))"
    if "snd (ParseUint (IntSize lib) (if v = [] then ''0'' else v) bitSize) = Some e"
    using that by (cases "v = []") (auto simp add: setUintField_def Let_def split: prod.splits)
  show "setBoolField v field
      = (field, Some (NumError ''ParseBool'' (if v = [] then ''false'' else v) e))"
    if "snd (ParseBool (if v = [] then ''false'' else v)) = Some e"
    using that by (cases "v = []") (auto simp add: setBoolField_def Let_def split: prod.splits)
  show "setFloatField lib v bitSize field
      = (field, Some (NumError ''ParseFloat'' (if v = [] then ''0.0'' else v) e))"
    if "snd (ParseFloat lib (if v = [] then ''0.0'' else v) bitSize) = Some e"
    using that by (cases "v = []") (auto simp add: setFloatField_def Let_def split: prod.splits)
  show "snd (ParseInt (IntSize lib) (if v = [] then ''0'' else v) bitSize) = None"
    if "fst (setIntField lib v bitSize field) \<noteq> field"
    using that
    by (cases "v = []") (auto simp add: setIntField_def Let_def split: prod.splits option.splits)
  show "snd (ParseUint (IntSize lib) (if v = [] then ''0'' else v) bitSize) = None"
    if "fst (setUintField lib v bitSize field) \<noteq> field"
    using that
    by (cases "v = []") (auto simp add: setUintField_def Let_def split: prod.splits option.splits)
  show "snd (ParseBool (if v = [] then ''false'' else v)) = None"
    if "fst (setBoolField v field) \<noteq> field"
    using that
    by (cases "v = []") (auto simp add: setBoolField_def Let_def split: prod.splits option.splits)
  show "snd (ParseFloat lib (if v = [] then ''0.0'' else v) bitSize) = None"
    if "fst (setFloatField lib v bitSize field) \<noteq> field"
    using that
    by (cases "v = []") (auto simp add: setFloatField_def Let_def split: prod.splits option.splits)
qed

theorem setters_write_only_on_success_witness:
  "setIntField testLib ''128'' 8 (VInt 5) = (VInt 5, Some (NumError ''ParseInt'' ''128'' ErrRange))
   \<and> setUintField testLib ''-1'' 8 (VUint 5) = (VUint 5, Some (NumError ''ParseUint'' ''-1'' ErrSyntax))
   \<and> setBoolField ''yes'' (VBool True) = (VBool True, Some (NumError ''ParseBool'' ''yes'' ErrSyntax))
   \<and> setFloatField testLib ''1e'' 64 (VFloat 2) = (VFloat 2, Some (NumError ''ParseFloat'' ''1e'' ErrSyntax))"
proof -
  have "snd (ParseInt (IntSize testLib) (if ''128'' = [] then ''0'' else ''128'') 8) = Some ErrRange"
    by (simp add: testLib_simps ParseInt_def ParseUint_def isDigit_def digitVal_def cutoff64_def)
  moreover
  have "snd (ParseUint (IntSize testLib) (if ''-1'' = [] then ''0'' else ''-1'') 8) = Some ErrSyntax"
    by (simp add: testLib_simps ParseUint_def isDigit_def)
  moreover
  have "snd (ParseBool (if ''yes'' = [] then ''false'' else ''yes'')) = Some ErrSyntax"
    by (simp add: ParseBool_def)
  moreover
  have "snd (ParseFloat testLib (if ''1e'' = [] then ''0.0'' else ''1e'') 64) = Some ErrSyntax"
    by (simp add: testLib_simps)
  ultimately show ?thesis
    using setters_write_only_on_success [of testLib "''128''" 8 ErrRange "VInt 5"]
      setters_write_only_on_success [of testLib "''-1''" 8 ErrSyntax "VUint 5"]
      setters_write_only_on_success [of testLib "''yes''" 8 ErrSyntax "VBool True"]
      setters_write_only_on_success [of testLib "''1e''" 64 ErrSyntax "VFloat 2"]
    by simp
qed

subsection \<open>Timestamps and the custom unmarshal hook\<close>

lemma bindValue_time:
  assumes "Type f = TTime" and "UnmarshalParam lib TTime = None"
  shows "bindValue lib f field (v # rest) =
     (fst (setTimeField lib v f field), Return (snd (setTimeField lib v f field)))"
  using assms
  by (simp add: bindValue_def unmarshalField_def unmarshalFieldNonPtr_def bindUnmarshaler_def
      split: prod.splits)

text \<open>
  C2. \<open>setTimeField\<close> on a field without a \<open>time_format\<close> returns the error
  \<open>Blank time format\<close> on every value and leaves the field as it was; with a
  \<open>time_format\<close> and the empty value it sets the field to the zero time and returns
  \<open>nil\<close>. The walker, at a field of type \<open>time.Time\<close> whose values it has found
  (\<open>time.Time\<close> has no \<open>UnmarshalParam\<close>), returns just that.
\<close>

theorem blank_time_format:
  "(TagGet (Tag f) ''time_format'' = []
      \<longrightarrow> setTimeField lib v f field = (field, Some ErrBlankTimeFormat))
   \<and> (TagGet (Tag f) ''time_format'' \<noteq> []
      \<longrightarrow> setTimeField lib [] f field = (VTime 0, None))
   \<and> (Type f = TTime \<and> UnmarshalParam lib TTime = None \<and> TagGet (Tag f) ''time_format'' = []
      \<longrightarrow> bindValue lib f field (v # rest) = (field, Return (Some ErrBlankTimeFormat)))
   \<and> (Type f = TTime \<and> UnmarshalParam lib TTime = None \<and> TagGet (Tag f) ''time_format'' \<noteq> []
      \<longrightarrow> bindValue lib f field ([] # rest) = (VTime 0, Return None))"
  by (simp add: bindValue_time) (simp add: setTimeField_def)

theorem blank_time_format_witness:
  "setTimeField testLib ''2024-03-15'' (StructField ''At'' [] [(''query'', ''at'')] TTime) (VTime 7)
     = (VTime 7, Some ErrBlankTimeFormat)
   \<and> setTimeField testLib [] (StructField ''At'' [] [(''time_format'', ''2006-01-02'')] TTime) (VTime 7)
     = (VTime 0, None)
   \<and> bindValue testLib (StructField ''At'' [] [(''query'', ''at'')] TTime) (VTime 7) [''2024-03-15'']
     = (VTime 7, Return (Some ErrBlankTimeFormat))
   \<and> bindValue testLib (StructField ''At'' [] [(''time_format'', ''2006-01-02'')] TTime) (VTime 7) ([] # [])
     = (VTime 0, Return None)"
  using blank_time_format [of "StructField ''At'' [] [(''query'', ''at'')] TTime" testLib
      "''2024-03-15''" "VTime 7" "[]"]
    blank_time_format [of "StructField ''At'' [] [(''time_format'', ''2006-01-02'')] TTime" testLib
      "[]" "VTime 7" "[]"]
  by (simp add: TagGet_def testLib_simps)

text \<open>
  C1. A field of the type \<open>Celsius\<close>, whose \<open>UnmarshalParam\<close> fails on \<open>warm\<close>
  and leaves its receiver alone, holds 21 before the call. The bind returns the error of
  \<open>UnmarshalParam\<close>, and the field holds 0 afterwards: \<open>unmarshalFieldNonPtr\<close> runs
  the method on a new zero value and stores that value in the field whether or not the
  method failed.
\<close>

theorem unmarshal_failure_overwrites_field:
  "bindData testLib (TStruct [StructField ''T'' [] [] (TNamed ''Celsius'' TInt)])
       (VStruct [VInt 21]) [(''T'', [''warm''])] ''query''
     = (VStruct [VInt 0], Some (ErrUnmarshalParam ''not a temperature''))"
  by (simp add: bindData.simps bindField.simps bindValue_def lookupInput_def CanSet_def
      TagGet_def bindUnmarshaler_def unmarshalField_def unmarshalFieldNonPtr_def testLib_simps
      celsiusParam_def)

subsection \<open>One turn of the walker's loop\<close>

lemma bindField_unsettable:
  assumes "\<not> CanSet f"
  shows "bindField lib f v data tag = (v, Continue)"
  using assms by (simp add: bindField.simps)

lemma bindField_walked:
  assumes "CanSet f" and "walkedInPlace lib f tag"
  shows "bindField lib f v data tag =
     (case bindData lib (Type f) v data tag of
        (field, Some err) \<Rightarrow> (field, Return (Some err))
      | (field, None) \<Rightarrow> (field, Continue))"
  using assms by (simp add: bindField.simps walkedInPlace_def)

lemma bindField_lookup:
  assumes "CanSet f" and "\<not> walkedInPlace lib f tag"
  shows "bindField lib f v data tag =
     (case lookupInput lib data (inputFieldName f tag) of
        None \<Rightarrow> (v, Continue)
      | Some inputValue \<Rightarrow> bindValue lib f v inputValue)"
proof -
  have "\<not> (TagGet (Tag f) tag = [] \<and> bindUnmarshaler lib (Type f) = None
      \<and> Kind (Type f) = KStruct)"
    using assms(2) by (simp add: walkedInPlace_def)
  then show ?thesis
    using assms(1) by (auto simp add: bindField.simps [of lib f] inputFieldName_def Let_def)
qed

lemma bindFields_step:
  "bindFields lib (f # fs) (v # vs) data tag =
     (case bindField lib f v data tag of
        (field, Return err) \<Rightarrow> (field # vs, err)
      | (field, Continue) \<Rightarrow>
          (case bindFields lib fs vs data tag of (vs', err) \<Rightarrow> (field # vs', err)))"
  by simp

subsection \<open>Index accesses of the walker\<close>

lemma setters_no_index_panic:
  "snd (setIntField lib v b field) \<noteq> Some PanicIndexOutOfRange"
  "snd (setUintField lib v b field) \<noteq> Some PanicIndexOutOfRange"
  "snd (setBoolField v field) \<noteq> Some PanicIndexOutOfRange"
  "snd (setFloatField lib v b field) \<noteq> Some PanicIndexOutOfRange"
  "snd (SetString field v) \<noteq> Some PanicIndexOutOfRange"
  "snd (setTimeField lib v f field) \<noteq> Some PanicIndexOutOfRange"
  by (auto simp add: setIntField_def setUintField_def setBoolField_def setFloatField_def
      SetInt_def SetUint_def SetBool_def SetFloat_def SetString_def setTimeField_def Let_def
      split: prod.splits option.splits val.splits if_splits)

lemma unmarshalField_no_index_panic:
  "unmarshalField lib k v t field = (ok, field', err) \<Longrightarrow> err \<noteq> Some PanicIndexOutOfRange"
  by (auto simp add: unmarshalField_def unmarshalFieldPtr_def unmarshalFieldNonPtr_def Let_def
      split: kind.splits prod.splits option.splits val.splits)

lemma setWithProperType_no_index_panic:
  "snd (setWithProperType lib k v t field) \<noteq> Some PanicIndexOutOfRange"
proof (induction lib k v t field rule: setWithProperType.induct)
  case (1 lib valueKind v fieldType structField)
  obtain ok field err where u: "unmarshalField lib valueKind v fieldType structField = (ok, field, err)"
    by (cases "unmarshalField lib valueKind v fieldType structField") auto
  note unfold = setWithProperType.simps [of lib valueKind v fieldType structField]
  show ?case
  proof (cases ok)
    case True
    then show ?thesis
      using u unfold unmarshalField_no_index_panic [OF u] by simp
  next
    case False
    show ?thesis
    proof (cases "valueKind = KPtr")
      case True
      show ?thesis
      proof (cases field)
        case (VPtr p)
        show ?thesis
        proof (cases "Elem fieldType")
          case None
          then show ?thesis
            using u unfold False True VPtr by simp
        next
          case (Some elemType)
          have "snd (setWithProperType lib (Kind elemType) v elemType
                  (case p of None \<Rightarrow> Zero elemType | Some x \<Rightarrow> x)) \<noteq> Some PanicIndexOutOfRange"
            by (rule 1 [of ok "(field, err)" field err field "Elem fieldType" p elemType])
              (use u True False VPtr Some in simp_all)
          then show ?thesis
            using u unfold False True VPtr Some by (simp split: prod.splits)
        qed
      qed (use u unfold False True in simp_all)
    next
      case notPtr: False
      then show ?thesis
        using u unfold False setters_no_index_panic
        by (cases valueKind) simp_all
    qed
  qed
qed

lemma setSliceElems_no_index_panic:
  assumes "numElems \<le> length inputValue" and "numElems \<le> length slice"
  shows "snd (setSliceElems lib sliceOf elemType inputValue numElems j slice)
           \<noteq> Some PanicIndexOutOfRange"
  using assms
proof (induction lib sliceOf elemType inputValue numElems j slice rule: setSliceElems.induct)
  case (1 lib sliceOf elemType inputValue numElems j slice)
  note unfold = setSliceElems.simps [of lib sliceOf elemType inputValue numElems j slice]
  show ?case
  proof (cases "j < numElems")
    case False
    then show ?thesis
      using unfold by simp
  next
    case True
    then have inb: "j < length inputValue \<and> j < length slice"
      using 1(2,3) by simp
    obtain x e where s: "setWithProperType lib sliceOf (inputValue ! j) elemType (slice ! j) = (x, e)"
      by (cases "setWithProperType lib sliceOf (inputValue ! j) elemType (slice ! j)") auto
    show ?thesis
    proof (cases e)
      case None
      have "snd (setSliceElems lib sliceOf elemType inputValue numElems (Suc j) (slice[j := x]))
              \<noteq> Some PanicIndexOutOfRange"
        using 1(2,3) by (intro 1(1) [OF True inb s [symmetric] None]) simp_all
      then show ?thesis
        using unfold True inb s None by simp
    next
      case (Some err)
      then show ?thesis
        using unfold True inb s setWithProperType_no_index_panic [of lib sliceOf "inputValue ! j" elemType "slice ! j"]
        by simp
    qed
  qed
qed

lemma bindValue_no_index_panic:
  assumes "inputValue \<noteq> []"
  shows "snd (bindValue lib f field inputValue) \<noteq> Return (Some PanicIndexOutOfRange)"
proof -
  obtain first rest where iv: "inputValue = first # rest"
    using assms by (cases inputValue) auto
  obtain ok field' err where
    u: "unmarshalField lib (Kind (Type f)) first (Type f) field = (ok, field', err)"
    by (cases "unmarshalField lib (Kind (Type f)) first (Type f) field") auto
  note unfold = bindValue_def [of lib f field inputValue, unfolded iv list.case u]
  show ?thesis
  proof (cases ok)
    case True
    then show ?thesis
      using unmarshalField_no_index_panic [OF u]
      by (cases err) (simp_all add: iv unfold)
  next
    case notOk: False
    show ?thesis
    proof (cases "Kind (Type f) = KSlice")
      case True
      show ?thesis
      proof (cases "Elem (Type f)")
        case None
        then show ?thesis
          using notOk True by (simp add: iv unfold)
      next
        case (Some elemType)
        have "snd (setSliceElems lib (Kind elemType) elemType (first # rest)
                (length (first # rest)) 0 (replicate (length (first # rest)) (Zero elemType)))
              \<noteq> Some PanicIndexOutOfRange"
          by (rule setSliceElems_no_index_panic) simp_all
        then show ?thesis
          using notOk True Some
          by (auto simp add: iv unfold Let_def split: prod.splits option.splits)
      qed
    next
      case False
      then show ?thesis
        using notOk setters_no_index_panic(6) [of lib first f field']
          setWithProperType_no_index_panic [of lib "Kind (Type f)" first "Type f" field']
        by (auto simp add: iv unfold Let_def split: prod.splits option.splits)
    qed
  qed
qed

lemma lookupInput_in_data:
  assumes "lookupInput lib data key = Some inputValue"
  shows "inputValue \<in> snd ` set data"
proof (cases "map_of data key")
  case None
  then obtain k where "find (\<lambda>(k, v). ToLower lib k = ToLower lib key) data = Some (k, inputValue)"
    using assms by (auto simp add: lookupInput_def)
  then have "(k, inputValue) \<in> set data"
    by (auto simp add: find_Some_iff dest: nth_mem)
  then show ?thesis
    by force
next
  case (Some vs)
  then have "(key, inputValue) \<in> set data"
    using assms by (auto simp add: lookupInput_def dest: map_of_SomeD)
  then show ?thesis
    by force
qed

lemma walk_no_index_panic:
  assumes "\<forall>vs \<in> snd ` set data. vs \<noteq> []"
  shows "snd (bindData lib t v data tag) \<noteq> Some PanicIndexOutOfRange"
    and "snd (bindField lib f x data tag) \<noteq> Return (Some PanicIndexOutOfRange)"
    and "snd (bindFields lib fs xs data tag) \<noteq> Some PanicIndexOutOfRange"
  using assms
proof (induction lib t v data tag and lib f x data tag and lib fs xs data tag
    rule: bindData_bindField_bindFields.induct)
  case (1 lib t v data tag)
  then show ?case
    by (cases v) (auto simp add: bindData.simps [of lib t] split: prod.splits)
next
  case (2 lib typeField structField data tag)
  show ?case
  proof (cases "CanSet typeField")
    case False
    then show ?thesis
      by (simp add: bindField_unsettable)
  next
    case True
    show ?thesis
    proof (cases "walkedInPlace lib typeField tag")
      case walked: True
      then have "snd (bindData lib (Type typeField) structField data tag) \<noteq> Some PanicIndexOutOfRange"
        using True 2 by (simp add: walkedInPlace_def)
      then show ?thesis
        using True walked by (auto simp add: bindField_walked split: prod.splits option.splits)
    next
      case False
      show ?thesis
      proof (cases "lookupInput lib data (inputFieldName typeField tag)")
        case None
        then show ?thesis
          using True False by (simp add: bindField_lookup)
      next
        case (Some inputValue)
        then have "inputValue \<noteq> []"
          using lookupInput_in_data [OF Some] 2(2) by auto
        then show ?thesis
          using True False Some bindValue_no_index_panic [of inputValue lib typeField structField]
          by (simp add: bindField_lookup)
      qed
    qed
  qed
next
  case (3 lib vs data tag)
  then show ?case by simp
next
  case (4 lib typeField fs data tag)
  then show ?case by simp
next
  case (5 lib typeField fs structField vs data tag)
  obtain field fl where b: "bindField lib typeField structField data tag = (field, fl)"
    by (cases "bindField lib typeField structField data tag") auto
  show ?case
  proof (cases fl)
    case Continue
    then show ?thesis
      using b 5(2) [OF b [symmetric] Continue 5(3)] by (auto split: prod.splits)
  next
    case (Return err)
    then show ?thesis
      using b 5(1) [OF 5(3)] by simp
  qed
qed

text \<open>
  C10. When every key of the source map has at least one value, the walk never ends in
  the panic of an index out of range, whatever the struct: not at the first value that
  the hook, the timestamp and the scalar setters take, and not in the loop that fills a
  slice. And at a field that the walker looks up, a key that is found with an empty list
  of values ends the walk in that panic.
\<close>

theorem value_accesses_in_bounds:
  "((\<forall>vs \<in> snd ` set data. vs \<noteq> [])
      \<longrightarrow> snd (bindData lib t v data tag) \<noteq> Some PanicIndexOutOfRange)
   \<and> (CanSet f \<and> \<not> walkedInPlace lib f tag
        \<and> lookupInput lib data' (inputFieldName f tag) = Some []
      \<longrightarrow> bindField lib f x data' tag = (x, Return (Some PanicIndexOutOfRange)))"
  by (simp add: walk_no_index_panic(1) bindField_lookup bindValue_def)

theorem value_accesses_in_bounds_witness:
  "snd (bindData testLib (TStruct [StructField ''Ids'' [] [] (TSlice TInt)]) (VStruct [VSlice []])
          [(''Ids'', [''1'', ''2''])] ''form'') \<noteq> Some PanicIndexOutOfRange
   \<and> bindField testLib (StructField ''Ids'' [] [] (TSlice TInt)) (VSlice []) [(''Ids'', [])] ''form''
       = (VSlice [], Return (Some PanicIndexOutOfRange))"
proof -
  have "\<forall>vs \<in> snd ` set [(''Ids'', [''1'', ''2''])]. vs \<noteq> []"
    by simp
  moreover
  have "CanSet (StructField ''Ids'' [] [] (TSlice TInt))
    \<and> \<not> walkedInPlace testLib (StructField ''Ids'' [] [] (TSlice TInt)) ''form''
    \<and> lookupInput testLib [(''Ids'', [])] (inputFieldName (StructField ''Ids'' [] [] (TSlice TInt)) ''form'')
        = Some []"
    by (simp add: CanSet_def walkedInPlace_def lookupInput_def inputFieldName_def TagGet_def)
  ultimately show ?thesis
    using value_accesses_in_bounds [of "[(''Ids'', [''1'', ''2''])]" testLib
        "TStruct [StructField ''Ids'' [] [] (TSlice TInt)]" "VStruct [VSlice []]" "''form''"
        "StructField ''Ids'' [] [] (TSlice TInt)" "[(''Ids'', [])]" "VSlice []"]
    by blast
qed

subsection \<open>Nested records\<close>

lemma bindData_struct:
  assumes "Kind t = KStruct"
  shows "bindData lib t (VStruct vs) data tag =
     (case bindFields lib (Fields t) vs data tag of (vs', err) \<Rightarrow> (VStruct vs', err))"
  using assms by (simp add: bindData.simps)

text \<open>
  C5, as the claim states it, fails. The field \<open>inner\<close> has no tag, its type is a struct
  without \<open>UnmarshalParam\<close>, and the map has a key for the nested field \<open>X\<close>; but
  \<open>inner\<close> is unexported, the walker passes it over before it looks at its tag or its
  type, and \<open>X\<close> keeps its value.
\<close>

theorem unexported_record_not_walked:
  "bindData testLib
       (TStruct [StructField ''inner'' ''main'' [] (TStruct [StructField ''X'' [] [] TInt])])
       (VStruct [VStruct [VInt 0]]) [(''X'', [''5''])] ''query''
     = (VStruct [VStruct [VInt 0]], None)"
  by (simp add: bindData.simps bindField.simps CanSet_def)

text \<open>
  C5, amended. At a settable field with no tag for the mode, of a struct type without
  \<open>UnmarshalParam\<close>, the walker calls itself on the field with the same source map and
  the same mode: when that walk fails, the loop returns its error, and otherwise the loop
  goes on with the next field. The field is not looked up in the map: the fields of the
  nested struct are bound from the map exactly as the fields of a top-level struct are.
\<close>

theorem nested_record_walked_in_place:
  assumes "CanSet f" and "TagGet (Tag f) tag = []" and "UnmarshalParam lib (Type f) = None"
    and "Kind (Type f) = KStruct"
  shows "bindFields lib (f # fs) (v # vs) data tag =
           (case bindData lib (Type f) v data tag of
              (field, Some err) \<Rightarrow> (field # vs, Some err)
            | (field, None) \<Rightarrow>
                (case bindFields lib fs vs data tag of (vs', err) \<Rightarrow> (field # vs', err)))
       \<and> bindField lib f (VStruct ws) data tag =
           (case bindFields lib (Fields (Type f)) ws data tag of
              (ws', Some err) \<Rightarrow> (VStruct ws', Return (Some err))
            | (ws', None) \<Rightarrow> (VStruct ws', Continue))"
proof -
  have walked: "walkedInPlace lib f tag"
    using assms by (simp add: walkedInPlace_def bindUnmarshaler_def)
  show ?thesis
    using assms(4)
    by (simp add: bindField_walked [OF assms(1) walked] bindData_struct
        split: prod.splits option.splits)
qed

theorem nested_record_walked_in_place_witness:
  "bindData testLib
      (TStruct [StructField ''Inner'' [] [] (TStruct [StructField ''X'' [] [] TInt]),
                StructField ''Y'' [] [] TInt])
      (VStruct [VStruct [VInt 0], VInt 0])
      [(''Inner'', [''9'']), (''X'', [''5'']), (''Y'', [''6''])] ''query''
    = (VStruct [VStruct [VInt 5], VInt 6], None)"
proof -
  let ?inner = "StructField ''Inner'' [] [] (TStruct [StructField ''X'' [] [] TInt])"
  let ?data = "[(''Inner'', [''9'']), (''X'', [''5'']), (''Y'', [''6''])]"
  have "CanSet ?inner" "TagGet (Tag ?inner) ''query'' = []"
    "UnmarshalParam testLib (Type ?inner) = None" "Kind (Type ?inner) = KStruct"
    by (simp_all add: CanSet_def TagGet_def testLib_simps)
  note walk = nested_record_walked_in_place [OF this,
      of "[StructField ''Y'' [] [] TInt]" "VStruct [VInt 0]" "[VInt 0]" ?data "[VInt 0]"]
  have x: "bindField testLib (StructField ''X'' [] [] TInt) (VInt 0) ?data ''query'' = (VInt 5, Continue)"
    by (simp add: bindField.simps bindValue_def lookupInput_def CanSet_def TagGet_def
        bindUnmarshaler_def unmarshalField_def unmarshalFieldNonPtr_def testLib_simps
        setWithProperType.simps setIntField_def SetInt_def ParseInt_def ParseUint_def
        isDigit_def digitVal_def cutoff64_def)
  have y: "bindField testLib (StructField ''Y'' [] [] TInt) (VInt 0) ?data ''query'' = (VInt 6, Continue)"
    by (simp add: bindField.simps bindValue_def lookupInput_def CanSet_def TagGet_def
        bindUnmarshaler_def unmarshalField_def unmarshalFieldNonPtr_def testLib_simps
        setWithProperType.simps setIntField_def SetInt_def ParseInt_def ParseUint_def
        isDigit_def digitVal_def cutoff64_def)
  show ?thesis
    using walk by (simp add: bindData_struct x y)
qed

subsection \<open>The key of a field\<close>

lemma lookupInput_exact:
  assumes "map_of data key = Some inputValue"
  shows "lookupInput lib data key = Some inputValue"
  using assms by (simp add: lookupInput_def)

lemma lookupInput_folded:
  assumes "map_of data key = None" and "i < length data"
    and "ToLower lib (fst (data ! i)) = ToLower lib key"
    and "\<forall>j<i. ToLower lib (fst (data ! j)) \<noteq> ToLower lib key"
  shows "lookupInput lib data key = Some (snd (data ! i))"
proof -
  have "find (\<lambda>(k, v). ToLower lib k = ToLower lib key) data = Some (data ! i)"
    using assms(2,3,4) by (auto simp add: find_Some_iff case_prod_beta intro!: exI [of _ i])
  then show ?thesis
    using assms(1) by (simp add: lookupInput_def)
qed

lemma lookupInput_none:
  assumes "\<forall>k \<in> fst ` set data. ToLower lib k \<noteq> ToLower lib key"
  shows "lookupInput lib data key = None"
proof -
  have "key \<notin> fst ` set data"
    using assms by auto
  then have "map_of data key = None"
    by (simp add: map_of_eq_None_iff)
  moreover have "find (\<lambda>(k, v). ToLower lib k = ToLower lib key) data = None"
    using assms by (auto simp add: find_None_iff)
  ultimately show ?thesis
    by (simp add: lookupInput_def)
qed

text \<open>
  C4, as the claim states it, fails. A field named \<open>name\<close> is unexported, so the walker
  passes it over and the value under the key \<open>Name\<close> never reaches it. And a field with
  no tag whose type is a struct without \<open>UnmarshalParam\<close> is not looked up under its
  name at all: the value under the key \<open>Inner\<close> is ignored, where a lookup would end in
  the error \<open>unknown type\<close>.
\<close>

theorem field_named_name_not_populated:
  "bindData testLib (TStruct [StructField ''name'' ''main'' [] TString]) (VStruct [VString ''old''])
       [(''Name'', [''Jon''])] ''query''
     = (VStruct [VString ''old''], None)
   \<and> bindData testLib (TStruct [StructField ''Inner'' [] [] (TStruct [StructField ''X'' [] [] TString])])
       (VStruct [VStruct [VString ''old'']]) [(''Inner'', [''Jon''])] ''query''
     = (VStruct [VStruct [VString ''old'']], None)"
  by (simp add: bindData.simps bindField.simps CanSet_def TagGet_def bindUnmarshaler_def
      testLib_simps lookupInput_def asciiLower_def)

text \<open>
  C4, amended. At a settable field that is not walked in place, the walker looks up the
  field's tag for the mode, or the field's name when that tag is empty, and a field that
  cannot be set is passed over. The values are those under that key when the map has it;
  when it has not, those under the first key visited that is equal to it in lower case;
  and when there is no such key either, there are none and the field is passed over.
\<close>

theorem field_resolution:
  "(CanSet f \<and> \<not> walkedInPlace lib f tag
      \<longrightarrow> bindField lib f v data tag =
           (case lookupInput lib data
                   (if TagGet (Tag f) tag \<noteq> [] then TagGet (Tag f) tag else Name f) of
              None \<Rightarrow> (v, Continue)
            | Some inputValue \<Rightarrow> bindValue lib f v inputValue))
   \<and> (\<not> CanSet f \<longrightarrow> bindField lib f v data tag = (v, Continue))
   \<and> (map_of data key = Some inputValue \<longrightarrow> lookupInput lib data key = Some inputValue)
   \<and> (map_of data key = None \<and> i < length data
        \<and> ToLower lib (fst (data ! i)) = ToLower lib key
        \<and> (\<forall>j<i. ToLower lib (fst (data ! j)) \<noteq> ToLower lib key)
      \<longrightarrow> lookupInput lib data key = Some (snd (data ! i)))
   \<and> ((\<forall>k \<in> fst ` set data. ToLower lib k \<noteq> ToLower lib key)
      \<longrightarrow> lookupInput lib data key = None)"
proof -
  have "inputFieldName f tag = (if TagGet (Tag f) tag \<noteq> [] then TagGet (Tag f) tag else Name f)"
    by (simp add: inputFieldName_def)
  then show ?thesis
    using bindField_lookup [of f lib tag v data] bindField_unsettable [of f lib v data tag]
    by (auto simp add: lookupInput_exact lookupInput_folded lookupInput_none)
qed

theorem field_resolution_witness:
  "bindData testLib (TStruct [StructField ''Name'' [] [] TString]) (VStruct [VString ''old''])
       [(''id'', [''7'']), (''name'', [''Jon'']), (''NAME'', [''Snow''])] ''query''
     = (VStruct [VString ''Jon''], None)
   \<and> bindField testLib (StructField ''name'' ''main'' [] TString) (VString ''old'')
       [(''name'', [''Jon''])] ''query'' = (VString ''old'', Continue)"
proof -
  let ?f = "StructField ''Name'' [] [] TString"
  let ?g = "StructField ''name'' ''main'' [] TString"
  let ?data = "[(''id'', [''7'']), (''name'', [''Jon'']), (''NAME'', [''Snow''])]"
  have f: "CanSet ?f \<and> \<not> walkedInPlace testLib ?f ''query''"
    by (simp add: CanSet_def walkedInPlace_def)
  have key: "map_of ?data ''Name'' = None \<and> 1 < length ?data
      \<and> ToLower testLib (fst (?data ! 1)) = ToLower testLib ''Name''
      \<and> (\<forall>j<1. ToLower testLib (fst (?data ! j)) \<noteq> ToLower testLib ''Name'')"
    by (simp add: testLib_simps asciiLower_def)
  have "bindField testLib ?f (VString ''old'') ?data ''query''
      = bindValue testLib ?f (VString ''old'') [''Jon'']"
    using field_resolution [of ?f testLib "''query''" "VString ''old''" ?data "''Name''" "[]" 1]
      f key
    by (simp add: TagGet_def)
  moreover have "\<not> CanSet ?g"
    by (simp add: CanSet_def)
  then have "bindField testLib ?g (VString ''old'') [(''name'', [''Jon''])] ''query''
      = (VString ''old'', Continue)"
    using field_resolution [of ?g testLib "''query''" "VString ''old''" "[(''name'', [''Jon''])]"]
    by simp
  ultimately show ?thesis
    by (simp add: bindData_struct bindValue_def unmarshalField_def unmarshalFieldNonPtr_def
        bindUnmarshaler_def testLib_simps setWithProperType.simps SetString_def)
qed

subsection \<open>Fields without a value\<close>







end
